theory Spec2Isabelle
  imports Complex_Main "HOL-Library.Sublist"
begin

section \<open>Python values reaching the interview\<close>

text \<open>
  A Python \<open>float\<close> is an IEEE double.  A finite double is kept as sign, mantissa and
  binary exponent, \<open>Finite s m e\<close> standing for \<open>(-1)^s * m * 2^e\<close>; the two infinities
  and not-a-number are values of their own.
\<close>

datatype pyfloat = Finite bool nat int | Infinite bool | NaN

text \<open>
  The raw values the widgets hand to the callbacks: \<open>None\<close> (an empty box), a \<open>str\<close>
  (text box, radio), a \<open>float\<close> or an \<open>int\<close> (number box).
\<close>

datatype pyval = PyNone | PyStr string | PyFloat pyfloat | PyInt int

text \<open>
  The exceptions that occur: the three the conversions raise, the one \<open>fill_pdf\<close> raises
  itself, with its message, and \<open>LibraryError\<close> for whatever the PDF reader or the canvas
  raises, with its message.
\<close>

datatype exn =
    ValueError
  | TypeError
  | OverflowError
  | FileNotFoundError string
  | LibraryError string

subsection \<open>Decimal digits\<close>

definition digit_char :: "nat \<Rightarrow> char" where
  "digit_char d = ''0123456789'' ! d"

fun str_nat :: "nat \<Rightarrow> string" where
  "str_nat n = (if n < 10 then [digit_char n] else str_nat (n div 10) @ [digit_char (n mod 10)])"

declare str_nat.simps [simp del]

definition str_int :: "int \<Rightarrow> string" where
  "str_int i = (if i < 0 then CHR ''-'' # str_nat (nat (- i)) else str_nat (nat i))"

definition is_digit :: "char \<Rightarrow> bool" where
  "is_digit c = (c \<in> set ''0123456789'')"

definition digit_val :: "char \<Rightarrow> nat" where
  "digit_val c = of_char c - 48"

definition nat_of_digits :: "string \<Rightarrow> nat" where
  "nat_of_digits ds = foldl (\<lambda>a c. 10 * a + digit_val c) 0 ds"

subsection \<open>Rounding to a double\<close>

fun bitlen :: "nat \<Rightarrow> nat" where
  "bitlen n = (if n = 0 then 0 else Suc (bitlen (n div 2)))"

declare bitlen.simps [simp del]

definition round_half_even :: "nat \<Rightarrow> nat \<Rightarrow> nat" where
  "round_half_even n d =
     (let q = n div d; r = n mod d
      in if d < 2 * r \<or> (2 * r = d \<and> odd q) then q + 1 else q)"

text \<open>\<open>scale2 n d p\<close> is the fraction \<open>n / (d * 2^p)\<close> as a pair of naturals.\<close>

definition scale2 :: "nat \<Rightarrow> nat \<Rightarrow> int \<Rightarrow> nat \<times> nat" where
  "scale2 n d p = (if 0 \<le> p then (n, d * 2 ^ nat p) else (n * 2 ^ nat (- p), d))"

text \<open>
  \<open>to_double s n d\<close> rounds \<open>(-1)^s * n / d\<close> to the nearest double, ties to the even
  mantissa: 53 bits of mantissa, the exponent no smaller than \<open>-1074\<close> (subnormals), and
  an infinity from \<open>2^1024\<close> on.
\<close>

definition to_double :: "bool \<Rightarrow> nat \<Rightarrow> nat \<Rightarrow> pyfloat" where
  "to_double s n d =
     (if n = 0 then Finite s 0 0
      else
        let k = int (bitlen n) - int (bitlen d);
            (a, b) = scale2 n d k;
            e = (if b \<le> a then k else k - 1);
            p = max (e - 52) (- 1074);
            (a', b') = scale2 n d p;
            m = round_half_even a' b'
        in if 2 ^ 2098 \<le> m * 2 ^ nat (p + 1074) then Infinite s else Finite s m p)"

subsection \<open>Operations on floats\<close>

text \<open>\<open>float.is_integer\<close>: a finite value without a fractional part.\<close>

fun is_integer :: "pyfloat \<Rightarrow> bool" where
  "is_integer (Finite s m e) = (0 \<le> e \<or> 2 ^ nat (- e) dvd m)"
| "is_integer (Infinite s) = False"
| "is_integer NaN = False"

text \<open>\<open>int(n)\<close> truncates towards zero and raises on an infinity or a NaN.\<close>

fun int_of_float :: "pyfloat \<Rightarrow> exn + int" where
  "int_of_float (Finite s m e) =
     (let a = (if 0 \<le> e then int m * 2 ^ nat e else int m div 2 ^ nat (- e))
      in Inr (if s then - a else a))"
| "int_of_float (Infinite s) = Inl OverflowError"
| "int_of_float NaN = Inl ValueError"

text \<open>
  The format \<open>.2f\<close>: the exact value rounded to hundredths, ties to even, written with
  the sign bit, the integer digits, a point and two digits.
\<close>

fun fmt_2f :: "pyfloat \<Rightarrow> string" where
  "fmt_2f (Finite s m e) =
     (let (a, b) = scale2 (m * 100) 1 (- e);
          r = round_half_even a b
      in (if s then ''-'' else []) @ str_nat (r div 100) @ ''.''
           @ [digit_char (r mod 100 div 10), digit_char (r mod 10)])"
| "fmt_2f (Infinite s) = (if s then ''-inf'' else ''inf'')"
| "fmt_2f NaN = ''nan''"

subsection \<open>Reading a float from a string\<close>

text \<open>
  \<open>float\<close> of a string: blanks around it are dropped, underscores between digits are
  dropped, and what is left is a sign and \<open>inf\<close>, \<open>infinity\<close> or \<open>nan\<close> in any case, or a
  decimal literal, which is rounded to the nearest double.  Anything else is a
  \<open>ValueError\<close>.  Strings are byte strings here: the digits and blanks are the ASCII ones.
\<close>

definition is_space :: "char \<Rightarrow> bool" where
  "is_space c = (c \<in> set [CHR '' '', CHR 0x09, CHR 0x0A, CHR 0x0B, CHR 0x0C, CHR 0x0D])"

definition strip :: "string \<Rightarrow> string" where
  "strip s = rev (dropWhile is_space (rev (dropWhile is_space s)))"

text \<open>
  An underscore is accepted between two digits only, and dropped; the walk carries the
  previous character (\<open>None\<close> at the start).
\<close>

fun drop_underscores :: "char option \<Rightarrow> string \<Rightarrow> string option" where
  "drop_underscores prev [] = (if prev = Some CHR ''_'' then None else Some [])"
| "drop_underscores prev (c # cs) =
     (if c = CHR ''_'' then
        (case prev of
           None \<Rightarrow> None
         | Some p \<Rightarrow> if is_digit p then drop_underscores (Some c) cs else None)
      else if prev = Some CHR ''_'' \<and> \<not> is_digit c then None
      else map_option ((#) c) (drop_underscores (Some c) cs))"

definition lower :: "char \<Rightarrow> char" where
  "lower c =
     (case map_of (zip ''ABCDEFGHIJKLMNOPQRSTUVWXYZ'' ''abcdefghijklmnopqrstuvwxyz'') c of
        Some l \<Rightarrow> l
      | None \<Rightarrow> c)"

definition split_sign :: "string \<Rightarrow> bool \<times> string" where
  "split_sign s =
     (case s of
        [] \<Rightarrow> (False, [])
      | c # cs \<Rightarrow>
          if c = CHR ''-'' then (True, cs) else if c = CHR ''+'' then (False, cs) else (False, s))"

text \<open>
  The exponent part: empty, or \<open>e\<close>/\<open>E\<close>, an optional sign and at least one digit, with
  nothing after it.
\<close>

definition parse_exponent :: "string \<Rightarrow> int option" where
  "parse_exponent s =
     (case s of
        [] \<Rightarrow> Some 0
      | c # cs \<Rightarrow>
          if c = CHR ''e'' \<or> c = CHR ''E'' then
            (let (neg, ds) = split_sign cs
             in if ds \<noteq> [] \<and> list_all is_digit ds
                then Some (if neg then - int (nat_of_digits ds) else int (nat_of_digits ds))
                else None)
          else None)"

text \<open>A decimal literal: digits, an optional point, digits (one digit at least), exponent.\<close>

definition parse_decimal :: "bool \<Rightarrow> string \<Rightarrow> exn + pyfloat" where
  "parse_decimal neg s =
     (let ip = takeWhile is_digit s;
          r1 = dropWhile is_digit s;
          has_point = (r1 \<noteq> [] \<and> hd r1 = CHR ''.'');
          fp = (if has_point then takeWhile is_digit (tl r1) else []);
          r2 = (if has_point then dropWhile is_digit (tl r1) else r1)
      in if ip = [] \<and> fp = [] then Inl ValueError
         else
           (case parse_exponent r2 of
              None \<Rightarrow> Inl ValueError
            | Some ex \<Rightarrow>
                let n = nat_of_digits (ip @ fp);
                    k = ex - int (length fp)
                in Inr (if 0 \<le> k then to_double neg (n * 10 ^ nat k) 1
                        else to_double neg n (10 ^ nat (- k)))))"

definition float_of_string :: "string \<Rightarrow> exn + pyfloat" where
  "float_of_string s =
     (case drop_underscores None (strip s) of
        None \<Rightarrow> Inl ValueError
      | Some t \<Rightarrow>
          let (neg, body) = split_sign t;
              w = map lower body
          in if w = ''inf'' \<or> w = ''infinity'' then Inr (Infinite neg)
             else if w = ''nan'' then Inr NaN
             else parse_decimal neg body)"

subsection \<open>Writing a float: \<open>str(float)\<close>\<close>

text \<open>
  \<open>str\<close> of a float is its \<open>repr\<close>: the shortest decimal digit string that reads back as
  the same double, the closest one when two of that length do, laid out with a point
  for decimal exponents from \<open>-4\<close> to \<open>15\<close> and with an exponent otherwise.
\<close>

text \<open>\<open>dec_exp n d\<close> is the decimal exponent \<open>k\<close> of \<open>n / d\<close>: \<open>10^k \<le> n / d < 10^(k+1)\<close>.\<close>

definition dec_exp :: "nat \<Rightarrow> nat \<Rightarrow> int" where
  "dec_exp n d =
     (if d \<le> n then int (length (str_nat (n div d))) - 1
      else
        let l = length (str_nat (d div n))
        in if d \<le> n * 10 ^ (l - 1) then - int (l - 1) else - int l)"

text \<open>\<open>scale10 n d p\<close> is the fraction \<open>n / (d * 10^p)\<close> as a pair of naturals.\<close>

definition scale10 :: "nat \<Rightarrow> nat \<Rightarrow> int \<Rightarrow> nat \<times> nat" where
  "scale10 n d p = (if 0 \<le> p then (n, d * 10 ^ nat p) else (n * 10 ^ nat (- p), d))"

definition same_value :: "pyfloat \<Rightarrow> nat \<Rightarrow> int \<Rightarrow> bool" where
  "same_value f m e =
     (case f of
        Finite s m' e' \<Rightarrow>
          (let lo = min e e' in m' * 2 ^ nat (e' - lo) = m * 2 ^ nat (e - lo))
      | _ \<Rightarrow> False)"

text \<open>
  The candidates with \<open>nd\<close> significant digits for \<open>m * 2^e\<close> are its two decimal
  neighbours; \<open>digits_at\<close> returns the digit number that reads back as \<open>m * 2^e\<close> (the
  closer one, the even one on a tie), with the power of ten it is scaled by.
\<close>

definition digits_at :: "nat \<Rightarrow> int \<Rightarrow> nat \<Rightarrow> (nat \<times> int) option" where
  "digits_at m e nd =
     (let (n, d) = scale2 m 1 (- e);
          q = dec_exp n d + 1 - int nd;
          (a, b) = scale10 n d q;
          lo = a div b;
          r = a mod b;
          back = (\<lambda>c. let (cn, cd) = scale10 c 1 (- q) in same_value (to_double False cn cd) m e);
          lo_first = (2 * r < b \<or> (2 * r = b \<and> even lo))
      in if back lo \<and> (lo_first \<or> \<not> back (lo + 1)) then Some (lo, q)
         else if back (lo + 1) then Some (lo + 1, q)
         else None)"

definition shortest_digits :: "nat \<Rightarrow> int \<Rightarrow> nat \<times> int" where
  "shortest_digits m e =
     (case List.map_filter (digits_at m e) [1..<18] of
        x # xs \<Rightarrow> x
      | [] \<Rightarrow>
          (let (n, d) = scale2 m 1 (- e);
               q = dec_exp n d + 1 - 17;
               (a, b) = scale10 n d q
           in (round_half_even a b, q)))"

definition strip_zeros :: "string \<Rightarrow> string" where
  "strip_zeros ds = rev (dropWhile (\<lambda>c. c = CHR ''0'') (rev ds))"

definition pad2 :: "string \<Rightarrow> string" where
  "pad2 ds = (if length ds < 2 then CHR ''0'' # ds else ds)"

definition float_repr :: "pyfloat \<Rightarrow> string" where
  "float_repr f =
     (case f of
        NaN \<Rightarrow> ''nan''
      | Infinite s \<Rightarrow> (if s then ''-inf'' else ''inf'')
      | Finite s m e \<Rightarrow>
          (if s then ''-'' else []) @
          (if m = 0 then ''0.0''
           else
             let (c, q) = shortest_digits m e;
                 full = str_nat c;
                 ds = strip_zeros full;
                 decpt = q + int (length full);
                 l = int (length ds)
             in if decpt \<le> - 4 \<or> 16 < decpt then
                  hd ds # (if tl ds = [] then [] else CHR ''.'' # tl ds) @ ''e''
                    @ (if decpt - 1 < 0 then ''-'' else ''+'') @ pad2 (str_nat (nat \<bar>decpt - 1\<bar>))
                else if decpt \<le> 0 then ''0.'' @ replicate (nat (- decpt)) CHR ''0'' @ ds
                else if l \<le> decpt then ds @ replicate (nat (decpt - l)) CHR ''0'' @ ''.0''
                else take (nat decpt) ds @ ''.'' @ drop (nat decpt) ds))"

subsection \<open>The builtins \<open>str\<close> and \<open>float\<close>\<close>

text \<open>\<open>str(value)\<close>; integers are written out in full, whatever their size.\<close>

fun py_str :: "pyval \<Rightarrow> string" where
  "py_str PyNone = ''None''"
| "py_str (PyStr s) = s"
| "py_str (PyFloat f) = float_repr f"
| "py_str (PyInt i) = str_int i"

text \<open>
  \<open>float(value)\<close>: a float is returned as it is, an int is rounded to the nearest double
  (\<open>OverflowError\<close> when it is too large), a string is parsed (\<open>ValueError\<close>), and \<open>None\<close>
  is a \<open>TypeError\<close>.
\<close>

fun py_float :: "pyval \<Rightarrow> exn + pyfloat" where
  "py_float PyNone = Inl TypeError"
| "py_float (PyStr s) = float_of_string s"
| "py_float (PyFloat f) = Inr f"
| "py_float (PyInt i) =
     (case to_double (i < 0) (nat \<bar>i\<bar>) 1 of
        Infinite s \<Rightarrow> Inl OverflowError
      | f \<Rightarrow> Inr f)"

section \<open>Configuration\<close>

definition TEMPLATE_PDF_PATH :: string where
  "TEMPLATE_PDF_PATH = ''Missouri - InFormaPauperis.pdf''"

text \<open>Key, then page index and the point \<open>(x, y)\<close>, in the order the dictionary lists them.\<close>

definition PDF_FIELD_POSITIONS :: "(string \<times> nat \<times> int \<times> int) list" where
  "PDF_FIELD_POSITIONS =
     [(''full_name'', 0, 120, 700),
      (''address'', 0, 120, 680),
      (''city_state_zip'', 0, 120, 660),
      (''phone'', 0, 120, 640),
      (''email'', 0, 360, 640),
      (''case_type'', 0, 120, 615),
      (''employment_status'', 0, 120, 590),
      (''monthly_income'', 0, 120, 570),
      (''cash_on_hand'', 0, 120, 550),
      (''bank_balance'', 0, 120, 530),
      (''monthly_expenses'', 0, 120, 510),
      (''dependents'', 0, 120, 490),
      (''government_assistance'', 0, 120, 470),
      (''debts'', 0, 120, 450),
      (''hardship_explanation'', 0, 120, 420),
      (''date_signed'', 0, 120, 160),
      (''signature_name'', 0, 360, 160)]"

record Question =
  key :: string
  label :: string
  qtype :: string
  choices :: "string list option"
  placeholder :: string

definition QUESTIONS :: "Question list" where
  "QUESTIONS =
     [\<lparr>key = ''full_name'', label = ''Your full legal name'', qtype = ''text'',
       choices = None, placeholder = ''Jane Doe''\<rparr>,
      \<lparr>key = ''address'', label = ''Street address'', qtype = ''text'',
       choices = None, placeholder = ''123 Main St''\<rparr>,
      \<lparr>key = ''city_state_zip'', label = ''City, State, ZIP'', qtype = ''text'',
       choices = None, placeholder = ''Springfield, MO 65807''\<rparr>,
      \<lparr>key = ''phone'', label = ''Phone number'', qtype = ''text'',
       choices = None, placeholder = ''(555) 555-5555''\<rparr>,
      \<lparr>key = ''email'', label = ''Email (optional)'', qtype = ''text'',
       choices = None, placeholder = ''name@example.com''\<rparr>,
      \<lparr>key = ''case_type'', label = ''Type of case'', qtype = ''radio'',
       choices = Some [''Dissolution of Marriage (Divorce)'', ''Legal Separation'',
                       ''Modification/Post-Decree'', ''Other Family Law''],
       placeholder = []\<rparr>,
      \<lparr>key = ''employment_status'', label = ''Employment status'', qtype = ''radio'',
       choices = Some [''Employed'', ''Unemployed'', ''Self-employed'', ''Disabled'', ''Retired''],
       placeholder = []\<rparr>,
      \<lparr>key = ''monthly_income'', label = ''Total monthly income (USD)'', qtype = ''number'',
       choices = None, placeholder = ''0''\<rparr>,
      \<lparr>key = ''cash_on_hand'', label = ''Cash on hand (USD)'', qtype = ''number'',
       choices = None, placeholder = ''0''\<rparr>,
      \<lparr>key = ''bank_balance'', label = ''Total bank account balances (USD)'', qtype = ''number'',
       choices = None, placeholder = ''0''\<rparr>,
      \<lparr>key = ''monthly_expenses'', label = ''Average monthly expenses (USD)'', qtype = ''number'',
       choices = None, placeholder = ''0''\<rparr>,
      \<lparr>key = ''dependents'', label = ''Number of dependents you support'', qtype = ''number'',
       choices = None, placeholder = ''0''\<rparr>,
      \<lparr>key = ''government_assistance'',
       label = ''Do you receive public benefits? If yes, list programs.'', qtype = ''multiline'',
       choices = None, placeholder = ''Example: SNAP, Medicaid, TANF''\<rparr>,
      \<lparr>key = ''debts'', label = ''Briefly list significant debts'', qtype = ''multiline'',
       choices = None, placeholder = ''Credit cards, medical bills, etc.''\<rparr>,
      \<lparr>key = ''hardship_explanation'', label = ''Explain why you cannot afford filing fees'',
       qtype = ''multiline'', choices = None,
       placeholder = ''Briefly describe your financial hardship.''\<rparr>,
      \<lparr>key = ''date_signed'', label = ''Date (MM/DD/YYYY)'', qtype = ''text'',
       choices = None, placeholder = ''MM/DD/YYYY''\<rparr>,
      \<lparr>key = ''signature_name'', label = ''Type your name as signature'', qtype = ''text'',
       choices = None, placeholder = ''Jane Doe''\<rparr>]"

section \<open>The interview\<close>

record state =
  step :: int
  answers :: "string \<rightharpoonup> string"

text \<open>\<open>answers.get(key, "")\<close>: the stored answer, or the empty string for a missing key.\<close>

definition get_answer :: "(string \<rightharpoonup> string) \<Rightarrow> string \<Rightarrow> string" where
  "get_answer ans k = (case ans k of None \<Rightarrow> [] | Some a \<Rightarrow> a)"

definition default_state :: state where
  "default_state = \<lparr>step = 0, answers = map_of (map (\<lambda>q. (key q, [])) QUESTIONS)\<rparr>"

definition current_question :: "int \<Rightarrow> Question" where
  "current_question i = QUESTIONS ! nat (max 0 (min i (int (length QUESTIONS) - 1)))"

text \<open>
  The \<open>try\<close> of the source covers the conversion to a float, \<open>is_integer\<close>, \<open>int\<close> and
  the formatting; whatever is raised there ends in \<open>str(value)\<close>.
\<close>

definition normalize_value :: "pyval \<Rightarrow> string \<Rightarrow> string" where
  "normalize_value v t =
     (if v = PyNone then []
      else if t = ''number'' then
        (case py_float v of
           Inl e \<Rightarrow> py_str v
         | Inr n \<Rightarrow>
             if is_integer n
             then (case int_of_float n of Inl e \<Rightarrow> py_str v | Inr i \<Rightarrow> str_int i)
             else fmt_2f n)
      else py_str v)"

subsection \<open>What the widgets are told\<close>

text \<open>
  One constructor for each shape of \<open>gr.update(...)\<close> in the source; the file offered
  for download is the document itself.
\<close>

datatype item = Content string | DrawString string nat int int string

type_synonym page = "item list"

datatype gr_update =
    Hide
  | ShowText string string string
  | ShowNumber string "pyfloat option" string
  | ShowRadio string "string list" "string option"
  | Interactive bool
  | ButtonValue string
  | FileUpdate "page list option" bool

fun index_of :: "'a list \<Rightarrow> 'a \<Rightarrow> exn + nat" where
  "index_of [] x = Inl ValueError"
| "index_of (y # ys) x = (if y = x then Inr 0 else map_sum id Suc (index_of ys x))"

type_synonym ui = "gr_update \<times> gr_update \<times> gr_update \<times> gr_update \<times> string"

definition ui_for_question :: "Question \<Rightarrow> string \<Rightarrow> exn + ui" where
  "ui_for_question q v =
     (let (text_update, number_update, radio_update, multiline_update) =
            (if qtype q = ''text'' then (ShowText (label q) v (placeholder q), Hide, Hide, Hide)
             else if qtype q = ''number'' then
               (Hide,
                ShowNumber (label q)
                  (if v \<noteq> [] then (case float_of_string v of Inl e \<Rightarrow> None | Inr f \<Rightarrow> Some f)
                   else None)
                  (placeholder q),
                Hide, Hide)
             else if qtype q = ''radio'' then
               (Hide, Hide,
                ShowRadio (label q) (case choices q of None \<Rightarrow> [] | Some cs \<Rightarrow> cs)
                  (if v = [] then None else Some v),
                Hide)
             else if qtype q = ''multiline'' then
               (Hide, Hide, Hide, ShowText (label q) v (placeholder q))
             else (Hide, Hide, Hide, Hide))
      in case index_of QUESTIONS q of
           Inl e \<Rightarrow> Inl e
         | Inr i \<Rightarrow>
             Inr (text_update, number_update, radio_update, multiline_update,
                  ''Question '' @ str_nat (i + 1) @ '' of '' @ str_nat (length QUESTIONS)))"

subsection \<open>Transitions\<close>

text \<open>
  The state is updated in place before the widget updates are computed, so the new
  state is returned also when computing them raises.
\<close>

text \<open>The \<open>if\<close>/\<open>elif\<close> chain that picks the widget whose value is saved.\<close>

definition pick_raw_val :: "Question \<Rightarrow> pyval \<Rightarrow> pyval \<Rightarrow> pyval \<Rightarrow> pyval \<Rightarrow> pyval" where
  "pick_raw_val q text_val number_val radio_val multiline_val =
     (if qtype q = ''text'' then text_val
      else if qtype q = ''number'' then number_val
      else if qtype q = ''radio'' then radio_val
      else if qtype q = ''multiline'' then multiline_val
      else PyStr [])"

definition save_answer_and_move ::
  "state \<Rightarrow> pyval \<Rightarrow> pyval \<Rightarrow> pyval \<Rightarrow> pyval \<Rightarrow> int
     \<Rightarrow> state \<times> (exn + ui \<times> gr_update \<times> gr_update)" where
  "save_answer_and_move st text_val number_val radio_val multiline_val delta =
     (let q = current_question (step st);
          raw_val = pick_raw_val q text_val number_val radio_val multiline_val;
          st1 = st\<lparr>answers := (answers st)(key q \<mapsto> normalize_value raw_val (qtype q))\<rparr>;
          new_step = max 0 (min (step st + delta) (int (length QUESTIONS) - 1));
          st2 = st1\<lparr>step := new_step\<rparr>;
          q2 = current_question new_step;
          existing = get_answer (answers st2) (key q2)
      in (st2,
          case ui_for_question q2 existing of
            Inl e \<Rightarrow> Inl e
          | Inr u \<Rightarrow>
              Inr (u, Interactive (0 < new_step),
                   ButtonValue (if new_step = int (length QUESTIONS) - 1
                                then ''Finish & Generate PDF'' else ''Next''))))"

definition start_interview :: "state \<Rightarrow> state \<times> (exn + ui \<times> gr_update \<times> gr_update \<times> string)" where
  "start_interview st =
     (default_state,
      case ui_for_question (current_question 0) [] of
        Inl e \<Rightarrow> Inl e
      | Inr u \<Rightarrow> Inr (u, Interactive False, ButtonValue ''Next'', []))"

definition on_back ::
  "state \<Rightarrow> pyval \<Rightarrow> pyval \<Rightarrow> pyval \<Rightarrow> pyval \<Rightarrow> state \<times> (exn + ui \<times> gr_update \<times> gr_update)" where
  "on_back st text_val number_val radio_val multiline_val =
     save_answer_and_move st text_val number_val radio_val multiline_val (- 1)"

section \<open>The overlay compositor\<close>

text \<open>
  A page is the list of what is painted on it, in order: content the template came
  with, and strings drawn at a point in a font of a size.  Merging an overlay page
  onto a page paints the overlay's items after the page's own.
\<close>

definition merge_page :: "page \<Rightarrow> page \<Rightarrow> page" where
  "merge_page base_page overlay_page = base_page @ overlay_page"

text \<open>
  What the compositor finds outside the program: the file at \<open>TEMPLATE_PDF_PATH\<close>, if
  there is one (a file the PDF reader rejects, with the reader's message, or a document
  with its pages), and for each text whether drawing it on the canvas raises (the
  message) or not.
\<close>

datatype pdf_file = Unreadable string | PdfFile "page list"

record env =
  template :: "pdf_file option"
  draw_fails :: "string \<Rightarrow> string option"

definition PdfReader :: "pdf_file \<Rightarrow> exn + page list" where
  "PdfReader f = (case f of Unreadable msg \<Rightarrow> Inl (LibraryError msg) | PdfFile ps \<Rightarrow> Inr ps)"

text \<open>
  The inner loop of \<open>create_overlay_pdf\<close>, over the registry: the items drawn so far on
  the current page are carried along.  An exception of the canvas is not caught there.
\<close>

fun draw_fields ::
  "env \<Rightarrow> (string \<rightharpoonup> string) \<Rightarrow> nat \<Rightarrow> (string \<times> nat \<times> int \<times> int) list \<Rightarrow> page \<Rightarrow> exn + page" where
  "draw_fields ev ans page_index [] drawn = Inr drawn"
| "draw_fields ev ans page_index ((k, p_idx, x, y) # positions) drawn =
     (if p_idx \<noteq> page_index then draw_fields ev ans page_index positions drawn
      else
        let v = get_answer ans k
        in if v \<noteq> [] then
             (case draw_fails ev v of
                Some msg \<Rightarrow> Inl (LibraryError msg)
              | None \<Rightarrow>
                  draw_fields ev ans page_index positions
                    (drawn @ [DrawString ''Helvetica'' 10 x y v]))
           else draw_fields ev ans page_index positions drawn)"

text \<open>The outer loop, over the page indices: each round ends the page (\<open>showPage\<close>).\<close>

fun overlay_pages ::
  "env \<Rightarrow> (string \<rightharpoonup> string) \<Rightarrow> (string \<times> nat \<times> int \<times> int) list \<Rightarrow> nat list \<Rightarrow> page list
     \<Rightarrow> exn + page list" where
  "overlay_pages ev ans positions [] finished = Inr finished"
| "overlay_pages ev ans positions (page_index # rest) finished =
     (case draw_fields ev ans page_index positions [] of
        Inl e \<Rightarrow> Inl e
      | Inr pg \<Rightarrow> overlay_pages ev ans positions rest (finished @ [pg]))"

definition create_overlay_pdf :: "env \<Rightarrow> (string \<rightharpoonup> string) \<Rightarrow> nat \<Rightarrow> exn + page list" where
  "create_overlay_pdf ev ans num_pages = overlay_pages ev ans PDF_FIELD_POSITIONS [0..<num_pages] []"

text \<open>The merge loop of \<open>fill_pdf\<close>, over the page indices of the template.\<close>

fun merge_pages :: "page list \<Rightarrow> page list \<Rightarrow> nat list \<Rightarrow> page list \<Rightarrow> page list" where
  "merge_pages tpl ovl [] out = out"
| "merge_pages tpl ovl (i # rest) out =
     (let base_page = tpl ! i;
          base_page' = (if i < length ovl then merge_page base_page (ovl ! i) else base_page)
      in merge_pages tpl ovl rest (out @ [base_page']))"

definition template_missing_message :: string where
  "template_missing_message =
     ''Template PDF not found at '' @ [CHR 0x27] @ TEMPLATE_PDF_PATH @ [CHR 0x27] @ ''. ''
       @ ''Place the IFP form in the repository and update TEMPLATE_PDF_PATH if needed.''"

definition fill_pdf :: "env \<Rightarrow> (string \<rightharpoonup> string) \<Rightarrow> exn + page list" where
  "fill_pdf ev ans =
     (case template ev of
        None \<Rightarrow> Inl (FileNotFoundError template_missing_message)
      | Some f \<Rightarrow>
          (case PdfReader f of
             Inl e \<Rightarrow> Inl e
           | Inr tpl \<Rightarrow>
               let num_pages = length tpl
               in (case create_overlay_pdf ev ans num_pages of
                     Inl e \<Rightarrow> Inl e
                   | Inr ovl \<Rightarrow> Inr (merge_pages tpl ovl [0..<num_pages] []))))"

text \<open>\<open>str(e)\<close> of a caught exception: its message.\<close>

fun exn_message :: "exn \<Rightarrow> string" where
  "exn_message (FileNotFoundError msg) = msg"
| "exn_message (LibraryError msg) = msg"
| "exn_message e = []"

definition on_next_or_finish ::
  "env \<Rightarrow> state \<Rightarrow> pyval \<Rightarrow> pyval \<Rightarrow> pyval \<Rightarrow> pyval
     \<Rightarrow> state \<times> (exn + ui \<times> gr_update \<times> gr_update \<times> gr_update \<times> string)" where
  "on_next_or_finish ev st text_val number_val radio_val multiline_val =
     (let at_last = (step st = int (length QUESTIONS) - 1);
          (st', r) = save_answer_and_move st text_val number_val radio_val multiline_val
                       (if at_last then 0 else 1)
      in (st',
          case r of
            Inl e \<Rightarrow> Inl e
          | Inr (u, back_u, next_u) \<Rightarrow>
              if at_last then
                (case fill_pdf ev (answers st') of
                   Inr output \<Rightarrow>
                     Inr (u, back_u, next_u, FileUpdate (Some output) True,
                          ''PDF generated successfully. Review and sign where required before filing.'')
                 | Inl e \<Rightarrow>
                     Inr (u, back_u, next_u, FileUpdate None False,
                          ''Could not generate PDF: '' @ exn_message e))
              else Inr (u, back_u, next_u, FileUpdate None False, [])))"

subsection \<open>Sessions\<close>

text \<open>
  A session is what \<open>start_interview\<close> returns, followed by presses of the two buttons,
  each with the values the four input widgets hold.
\<close>

datatype event = Next pyval pyval pyval pyval | Back pyval pyval pyval pyval

fun fire :: "env \<Rightarrow> state \<Rightarrow> event \<Rightarrow> state" where
  "fire ev st (Next t n r m) = fst (on_next_or_finish ev st t n r m)"
| "fire ev st (Back t n r m) = fst (on_back st t n r m)"

definition session :: "env \<Rightarrow> state \<Rightarrow> event list \<Rightarrow> state" where
  "session ev st0 evs = foldl (fire ev) (fst (start_interview st0)) evs"

section \<open>Numbers as the specification speaks of them\<close>

text \<open>The number a finite float stands for.\<close>

definition float_value :: "bool \<Rightarrow> nat \<Rightarrow> int \<Rightarrow> rat" where
  "float_value s m e =
     (if s then - 1 else 1) * of_nat m * (if 0 \<le> e then 2 ^ nat e else 1 / 2 ^ nat (- e))"

text \<open>
  The canonical decimal form of an integer: a minus sign when it is negative, then its
  digits, with no leading zero (but the single digit of zero) and no fractional part.
\<close>

definition canonical_decimal :: "string \<Rightarrow> int \<Rightarrow> bool" where
  "canonical_decimal str z =
     (let ds = (if z < 0 then drop 1 str else str)
      in (z < 0 \<longrightarrow> take 1 str = ''-'') \<and> ds \<noteq> [] \<and> list_all is_digit ds
         \<and> (hd ds = CHR ''0'' \<longrightarrow> ds = ''0'') \<and> int (nat_of_digits ds) = \<bar>z\<bar>)"

text \<open>
  A decimal with two places that is a nearest one to \<open>q\<close>: the sign of the float, digits,
  a point and two digits, no more than half a hundredth away from \<open>q\<close> in absolute value.
\<close>

definition two_places :: "string \<Rightarrow> bool \<Rightarrow> rat \<Rightarrow> bool" where
  "two_places str neg q =
     (let body = (if neg then drop 1 str else str);
          ip = takeWhile is_digit body;
          rest = dropWhile is_digit body;
          fp = drop 1 rest
      in (neg \<longrightarrow> take 1 str = ''-'') \<and> ip \<noteq> [] \<and> take 1 rest = ''.''
         \<and> length fp = 2 \<and> list_all is_digit fp
         \<and> \<bar>of_nat (nat_of_digits (ip @ fp)) / 100 - \<bar>q\<bar>\<bar> \<le> 1 / 200)"

section \<open>What an overlay page should show\<close>

text \<open>
  The rule the specification gives for one overlay page, written down on its own: for
  each field position on that page whose answer is not empty, in the registry's order,
  the answer as one string at the field's point, in Helvetica 10.
\<close>

definition expected_page :: "(string \<rightharpoonup> string) \<Rightarrow> (string \<times> nat \<times> int \<times> int) list \<Rightarrow> nat \<Rightarrow> page" where
  "expected_page ans positions i =
     map (\<lambda>(k, p, x, y). DrawString ''Helvetica'' 10 x y (get_answer ans k))
       (filter (\<lambda>(k, p, x, y). p = i \<and> get_answer ans k \<noteq> []) positions)"

text \<open>The strings a page shows at a point, in the order they were drawn.\<close>

fun text_at :: "int \<Rightarrow> int \<Rightarrow> item \<Rightarrow> string option" where
  "text_at x y (DrawString f s x' y' v) = (if x' = x \<and> y' = y then Some v else None)"
| "text_at x y (Content c) = None"

definition drawn_at :: "int \<Rightarrow> int \<Rightarrow> page \<Rightarrow> string list" where
  "drawn_at x y pg = List.map_filter (text_at x y) pg"

section \<open>Sample surroundings\<close>

text \<open>
  A one-page template; a canvas that draws every text, and one that raises on the text
  \<open>bad\<close>; answers with names filled in.
\<close>

definition sample_template :: pdf_file where
  "sample_template = PdfFile [[Content ''form'']]"

definition quiet_env :: env where
  "quiet_env = \<lparr>template = Some sample_template, draw_fails = Map.empty\<rparr>"

definition faulty_env :: env where
  "faulty_env = \<lparr>template = Some sample_template, draw_fails = [''bad'' \<mapsto> ''boom'']\<rparr>"


definition named_answers :: "string \<rightharpoonup> string" where
  "named_answers = (answers default_state)(''full_name'' \<mapsto> ''Jane Doe'')"

definition bad_answers :: "string \<rightharpoonup> string" where
  "bad_answers = (answers default_state)(''full_name'' \<mapsto> ''bad'', ''address'' \<mapsto> ''12 Elm St'')"

section \<open>Facts about the question list\<close>

lemma length_QUESTIONS: "length QUESTIONS = 17"
  by (simp add: QUESTIONS_def)

lemma current_question_mem: "current_question i \<in> set QUESTIONS"
  unfolding current_question_def by (rule nth_mem) (simp add: length_QUESTIONS)

lemma key_current_question: "key (current_question i) \<in> set (map key QUESTIONS)"
  using current_question_mem [of i] by simp

lemma first_question:
  "key (current_question 0) = ''full_name''" "qtype (current_question 0) = ''text''"
  by (simp_all add: current_question_def QUESTIONS_def)

lemma last_question:
  "key (current_question 16) = ''signature_name''" "qtype (current_question 16) = ''text''"
  by (simp_all add: current_question_def QUESTIONS_def)

lemma index_of_mem: "x \<in> set xs \<Longrightarrow> \<exists>i. index_of xs x = Inr i"
  by (induction xs) auto

text \<open>The lookup of the question in \<open>QUESTIONS\<close> never fails on a current question.\<close>

lemma ui_for_question_returns: "\<exists>u. ui_for_question (current_question i) v = Inr u"
proof -
  obtain j where "index_of QUESTIONS (current_question i) = Inr j"
    using index_of_mem [OF current_question_mem] by blast
  then show ?thesis
    by (simp add: ui_for_question_def Let_def split: prod.split)
qed

section \<open>The transitions, step by step\<close>

lemma step_save_answer_and_move:
  "step (fst (save_answer_and_move st t n r m d)) =
     max 0 (min (step st + d) (int (length QUESTIONS) - 1))"
  by (simp add: save_answer_and_move_def Let_def)

lemma answers_save_answer_and_move:
  "answers (fst (save_answer_and_move st t n r m d)) =
     (answers st)(key (current_question (step st)) \<mapsto>
        normalize_value (pick_raw_val (current_question (step st)) t n r m)
          (qtype (current_question (step st))))"
  by (simp add: save_answer_and_move_def Let_def)

lemma save_answer_and_move_returns:
  "\<exists>x. snd (save_answer_and_move st t n r m d) = Inr x"
proof -
  let ?i = "max 0 (min (step st + d) (int (length QUESTIONS) - 1))"
  let ?st = "fst (save_answer_and_move st t n r m d)"
  obtain u where "ui_for_question (current_question ?i)
      (get_answer (answers ?st) (key (current_question ?i))) = Inr u"
    using ui_for_question_returns by blast
  then have "snd (save_answer_and_move st t n r m d) =
      Inr (u, Interactive (0 < ?i),
           ButtonValue (if ?i = int (length QUESTIONS) - 1 then ''Finish & Generate PDF'' else ''Next''))"
    by (simp add: save_answer_and_move_def Let_def)
  then show ?thesis by (rule exI)
qed

lemma fst_on_next_or_finish:
  "fst (on_next_or_finish ev st t n r m) =
     fst (save_answer_and_move st t n r m (if step st = int (length QUESTIONS) - 1 then 0 else 1))"
  by (simp add: on_next_or_finish_def Let_def split: prod.split)

lemma fst_on_back: "fst (on_back st t n r m) = fst (save_answer_and_move st t n r m (- 1))"
  by (simp add: on_back_def)

lemma session_Nil: "session ev st0 [] = default_state"
  by (simp add: session_def start_interview_def)

lemma session_snoc: "session ev st0 (evs @ [e]) = fire ev (session ev st0 evs) e"
  by (simp add: session_def)

lemma step_fire:
  "0 \<le> step (fire ev st e) \<and> step (fire ev st e) \<le> int (length QUESTIONS) - 1"
  by (cases e)
    (simp_all add: fst_on_next_or_finish fst_on_back step_save_answer_and_move length_QUESTIONS)

lemma dom_default_state: "dom (answers default_state) = set (map key QUESTIONS)"
  by (simp add: default_state_def dom_map_of_conv_image_fst image_image)

lemma dom_fire:
  "dom (answers st) = set (map key QUESTIONS) \<Longrightarrow>
   dom (answers (fire ev st e)) = set (map key QUESTIONS)"
  using key_current_question [of "step st"]
  by (cases e)
    (auto simp add: fst_on_next_or_finish fst_on_back answers_save_answer_and_move
       simp del: set_map)

text \<open>What Next does at the last step.\<close>

lemma on_next_or_finish_at_last:
  assumes "step st = int (length QUESTIONS) - 1"
  shows "\<exists>u b nx. on_next_or_finish ev st t n r m =
           (st\<lparr>answers := (answers st)(''signature_name'' \<mapsto> normalize_value t ''text'')\<rparr>,
            Inr (u, b, nx,
                 (case fill_pdf ev ((answers st)(''signature_name'' \<mapsto> normalize_value t ''text'')) of
                    Inr output \<Rightarrow> FileUpdate (Some output) True
                  | Inl e \<Rightarrow> FileUpdate None False),
                 (case fill_pdf ev ((answers st)(''signature_name'' \<mapsto> normalize_value t ''text'')) of
                    Inr output \<Rightarrow>
                      ''PDF generated successfully. Review and sign where required before filing.''
                  | Inl e \<Rightarrow> ''Could not generate PDF: '' @ exn_message e)))"
proof -
  have s16: "step st = 16" using assms by (simp add: length_QUESTIONS)
  let ?st = "st\<lparr>answers := (answers st)(''signature_name'' \<mapsto> normalize_value t ''text'')\<rparr>"
  have f: "fst (save_answer_and_move st t n r m 0) = ?st"
    using s16
    by (simp add: save_answer_and_move_def Let_def last_question pick_raw_val_def length_QUESTIONS)
  obtain x where r: "snd (save_answer_and_move st t n r m 0) = Inr x"
    using save_answer_and_move_returns by blast
  obtain u b nx where x: "x = (u, b, nx)" by (cases x)
  have sm: "save_answer_and_move st t n r m 0 = (?st, Inr (u, b, nx))"
    using f r x by (metis prod.collapse)
  show ?thesis
  proof (cases "fill_pdf ev ((answers st)(''signature_name'' \<mapsto> normalize_value t ''text''))")
    case (Inl e)
    with sm assms show ?thesis
      by (intro exI [of _ u] exI [of _ b] exI [of _ nx]) (simp add: on_next_or_finish_def)
  next
    case (Inr doc)
    with sm assms show ?thesis
      by (intro exI [of _ u] exI [of _ b] exI [of _ nx]) (simp add: on_next_or_finish_def)
  qed
qed

section \<open>The loops of the compositor\<close>

lemma draw_fields_Inr:
  "draw_fields ev ans i ps drawn = Inr pg \<Longrightarrow> pg = drawn @ expected_page ans ps i"
proof (induction ps arbitrary: drawn)
  case Nil
  then show ?case by (simp add: expected_page_def)
next
  case (Cons a ps)
  obtain k p x y where a: "a = (k, p, x, y)" by (cases a)
  from Cons.prems
    Cons.IH [of "drawn @ [DrawString ''Helvetica'' 10 x y (get_answer ans k)]"]
    Cons.IH [of drawn]
  show ?case
    by (auto simp add: a expected_page_def Let_def split: if_splits option.splits)
qed

lemma draw_fields_Inl:
  "draw_fields ev ans i ps drawn = Inl e \<Longrightarrow>
   \<exists>k x y msg. (k, i, x, y) \<in> set ps \<and> get_answer ans k \<noteq> []
      \<and> draw_fails ev (get_answer ans k) = Some msg \<and> e = LibraryError msg"
proof (induction ps arbitrary: drawn)
  case Nil
  then show ?case by simp
next
  case (Cons a ps)
  obtain k p x y where a: "a = (k, p, x, y)" by (cases a)
  from Cons.prems Cons.IH show ?case
    by (fastforce simp add: a Let_def split: if_splits option.splits)
qed

lemma draw_fields_fails:
  "(k, i, x, y) \<in> set ps \<Longrightarrow> get_answer ans k \<noteq> [] \<Longrightarrow> draw_fails ev (get_answer ans k) = Some msg
   \<Longrightarrow> \<exists>e. draw_fields ev ans i ps drawn = Inl e"
proof (induction ps arbitrary: drawn)
  case Nil
  then show ?case by simp
next
  case (Cons a ps)
  obtain k' p' x' y' where a: "a = (k', p', x', y')" by (cases a)
  from Cons.prems Cons.IH show ?case
    by (auto simp add: a Let_def split: if_splits option.splits)
qed


lemma overlay_pages_Inr:
  "overlay_pages ev ans ps is finished = Inr pages \<Longrightarrow>
   pages = finished @ map (expected_page ans ps) is"
proof (induction "is" arbitrary: finished)
  case Nil
  then show ?case by simp
next
  case (Cons i "is")
  from Cons.prems obtain pg where pg: "draw_fields ev ans i ps [] = Inr pg"
    and rest: "overlay_pages ev ans ps is (finished @ [pg]) = Inr pages"
    by (auto split: sum.splits)
  from draw_fields_Inr [OF pg] Cons.IH [OF rest] show ?case by simp
qed

lemma overlay_pages_Inl:
  "overlay_pages ev ans ps is finished = Inl e \<Longrightarrow>
   \<exists>i \<in> set is. draw_fields ev ans i ps [] = Inl e"
proof (induction "is" arbitrary: finished)
  case Nil
  then show ?case by simp
next
  case (Cons i "is")
  then show ?case by (auto split: sum.splits)
qed

lemma overlay_pages_fails:
  "i \<in> set is \<Longrightarrow> draw_fields ev ans i ps [] = Inl e \<Longrightarrow>
   \<exists>e'. overlay_pages ev ans ps is finished = Inl e'"
proof (induction "is" arbitrary: finished)
  case Nil
  then show ?case by simp
next
  case (Cons j "is")
  then show ?case by (auto split: sum.splits)
qed



lemma create_overlay_pdf_Inl:
  "create_overlay_pdf ev ans n = Inl e \<Longrightarrow> \<exists>msg. e = LibraryError msg"
  unfolding create_overlay_pdf_def
  by (blast dest: overlay_pages_Inl draw_fields_Inl)






lemma drawn_at_Cons:
  "drawn_at x y (it # pg) = (case text_at x y it of None \<Rightarrow> drawn_at x y pg | Some v \<Rightarrow> v # drawn_at x y pg)"
  by (simp add: drawn_at_def map_filter_simps split: option.split)

lemma drawn_at_Nil: "drawn_at x y [] = []"
  by (simp add: drawn_at_def map_filter_simps)

lemma expected_page_Nil: "expected_page ans [] i = []"
  by (simp add: expected_page_def)

lemma expected_page_Cons:
  "expected_page ans ((k, p, x, y) # ps) i =
     (if p = i \<and> get_answer ans k \<noteq> []
      then DrawString ''Helvetica'' 10 x y (get_answer ans k) # expected_page ans ps i
      else expected_page ans ps i)"
  by (simp add: expected_page_def)

lemma drawn_at_elsewhere:
  "(x, y) \<notin> set (map (\<lambda>f. snd (snd f)) ps) \<Longrightarrow> drawn_at x y (expected_page ans ps i) = []"
proof (induction ps)
  case Nil
  show ?case by (simp add: expected_page_Nil drawn_at_Nil)
next
  case (Cons a ps)
  obtain k' p' x' y' where a: "a = (k', p', x', y')" by (cases a)
  from Cons show ?case
    by (auto simp add: a expected_page_Cons drawn_at_Cons)
qed

lemma drawn_at_expected_page:
  "distinct (map (\<lambda>f. snd (snd f)) ps) \<Longrightarrow> (k, p, x, y) \<in> set ps \<Longrightarrow>
   drawn_at x y (expected_page ans ps i) =
     (if i = p \<and> get_answer ans k \<noteq> [] then [get_answer ans k] else [])"
proof (induction ps)
  case Nil
  then show ?case by simp
next
  case (Cons a ps)
  obtain k' p' x' y' where a: "a = (k', p', x', y')" by (cases a)
  show ?case
  proof (cases "a = (k, p, x, y)")
    case True
    with Cons.prems a have "(x, y) \<notin> set (map (\<lambda>f. snd (snd f)) ps)" by simp
    from drawn_at_elsewhere [OF this] True show ?thesis
      by (auto simp add: expected_page_Cons drawn_at_Cons)
  next
    case False
    with Cons.prems have mem: "(k, p, x, y) \<in> set ps" by simp
    with Cons.prems a have "(x', y') \<noteq> (x, y)" by force
    with Cons.IH mem Cons.prems show ?thesis
      by (auto simp add: a expected_page_Cons drawn_at_Cons)
  qed
qed

lemma distinct_points: "distinct (map (\<lambda>f. snd (snd f)) PDF_FIELD_POSITIONS)"
  by (simp add: PDF_FIELD_POSITIONS_def)

section \<open>Digits, rounding and whole numbers\<close>

lemma digit_cases: "d < 10 \<Longrightarrow> d \<in> {0, 1, 2, 3, 4, 5, 6, 7, 8, 9::nat}"
  by auto

lemma is_digit_digit_char: "d < 10 \<Longrightarrow> is_digit (digit_char d)"
  by (drule digit_cases) (auto simp add: digit_char_def is_digit_def)

lemma digit_val_digit_char: "d < 10 \<Longrightarrow> digit_val (digit_char d) = d"
  by (drule digit_cases) (auto simp add: digit_char_def digit_val_def)

lemma digit_char_zero: "d < 10 \<Longrightarrow> digit_char d = CHR ''0'' \<longleftrightarrow> d = 0"
  by (drule digit_cases) (auto simp add: digit_char_def)

lemma str_nat_digits: "list_all is_digit (str_nat n)"
proof (induction n rule: str_nat.induct)
  case (1 n)
  show ?case
  proof (cases "n < 10")
    case True
    then show ?thesis by (subst str_nat.simps) (simp add: is_digit_digit_char)
  next
    case False
    with 1 show ?thesis by (subst str_nat.simps) (simp add: is_digit_digit_char)
  qed
qed

lemma str_nat_not_Nil: "str_nat n \<noteq> []"
  by (subst str_nat.simps) simp

lemma nat_of_digits_snoc: "nat_of_digits (ds @ [c]) = 10 * nat_of_digits ds + digit_val c"
  by (simp add: nat_of_digits_def)

lemma nat_of_digits_str_nat: "nat_of_digits (str_nat n) = n"
proof (induction n rule: str_nat.induct)
  case (1 n)
  show ?case
  proof (cases "n < 10")
    case True
    then show ?thesis
      by (subst str_nat.simps) (simp add: nat_of_digits_def digit_val_digit_char)
  next
    case False
    with 1 show ?thesis
      by (subst str_nat.simps) (simp add: nat_of_digits_snoc digit_val_digit_char)
  qed
qed

lemma hd_str_nat: "hd (str_nat n) = CHR ''0'' \<Longrightarrow> n = 0"
proof (induction n rule: str_nat.induct)
  case (1 n)
  show ?case
  proof (cases "n < 10")
    case True
    with "1.prems" show ?thesis
      by (subst (asm) str_nat.simps) (simp add: digit_char_zero)
  next
    case False
    with "1.prems" have "hd (str_nat (n div 10)) = CHR ''0''"
      by (subst (asm) str_nat.simps) (simp add: str_nat_not_Nil)
    with 1 False have "n div 10 = 0" by simp
    with False show ?thesis by simp
  qed
qed

lemma str_nat_0: "str_nat 0 = ''0''"
  by (subst str_nat.simps) (simp add: digit_char_def)

lemma canonical_str_nat:
  "str_nat n \<noteq> [] \<and> list_all is_digit (str_nat n)
   \<and> (hd (str_nat n) = CHR ''0'' \<longrightarrow> str_nat n = ''0'') \<and> nat_of_digits (str_nat n) = n"
  using hd_str_nat [of n]
  by (auto simp add: str_nat_digits str_nat_not_Nil nat_of_digits_str_nat str_nat_0)

lemma canonical_str_int: "canonical_decimal (str_int z) z"
proof (cases "z < 0")
  case True
  with canonical_str_nat [of "nat (- z)"] show ?thesis
    by (simp add: canonical_decimal_def str_int_def)
next
  case False
  with canonical_str_nat [of "nat z"] show ?thesis
    by (simp add: canonical_decimal_def str_int_def)
qed

lemma round_half_even_int:
  assumes "0 < b"
  shows "2 * \<bar>int (round_half_even a b) * int b - int a\<bar> \<le> int b"
proof -
  define q r where "q = a div b" and "r = a mod b"
  have a: "a = q * b + r" and r: "r < b"
    using assms by (simp_all add: q_def r_def)
  show ?thesis
  proof (cases "b < 2 * r \<or> (2 * r = b \<and> odd q)")
    case True
    then have "round_half_even a b = q + 1"
      by (simp add: round_half_even_def q_def r_def Let_def)
    moreover from True have "b \<le> 2 * r" by auto
    ultimately show ?thesis using r by (simp add: a algebra_simps)
  next
    case False
    then have "round_half_even a b = q"
      by (simp add: round_half_even_def q_def r_def Let_def)
    moreover from False have "2 * r \<le> b" by auto
    ultimately show ?thesis by (simp add: a algebra_simps)
  qed
qed

lemma round_half_even_rat:
  assumes "0 < b"
  shows "\<bar>(of_nat (round_half_even a b) :: rat) - of_nat a / of_nat b\<bar> \<le> 1 / 2"
proof -
  let ?r = "round_half_even a b"
  have "(of_int (2 * \<bar>int ?r * int b - int a\<bar>) :: rat) \<le> of_int (int b)"
    using round_half_even_int [OF assms, of a] by (simp only: of_int_le_iff)
  then have "2 * \<bar>(of_nat ?r :: rat) * of_nat b - of_nat a\<bar> \<le> of_nat b"
    by simp
  moreover have "(of_nat ?r :: rat) - of_nat a / of_nat b = (of_nat ?r * of_nat b - of_nat a) / of_nat b"
    using assms by (simp add: field_simps)
  ultimately show ?thesis
    using assms by (simp add: abs_divide field_simps)
qed

lemma scale2_hundred:
  "scale2 (m * 100) 1 (- e) = (a, b) \<Longrightarrow>
   0 < b \<and> (of_nat a :: rat) / of_nat b = 100 * \<bar>float_value s m e\<bar>"
  by (auto simp add: scale2_def float_value_def abs_mult split: if_splits)

lemma nat_of_digits_two:
  "nat_of_digits (ds @ [c1, c2]) = 100 * nat_of_digits ds + 10 * digit_val c1 + digit_val c2"
  using nat_of_digits_snoc [of "ds @ [c1]" c2] by (simp add: nat_of_digits_snoc)

lemma not_digit_point: "\<not> is_digit CHR ''.''"
  by (simp add: is_digit_def)

lemma digits_value: "100 * (r div 100) + 10 * (r mod 100 div 10) + r mod 10 = (r::nat)"
proof -
  have "r mod 100 mod 10 = r mod 10" by (simp add: mod_mod_cancel)
  moreover have "10 * (r mod 100 div 10) + r mod 100 mod 10 = r mod 100"
    by (rule mult_div_mod_eq)
  moreover have "100 * (r div 100) + r mod 100 = r"
    by (rule mult_div_mod_eq)
  ultimately show ?thesis by linarith
qed

lemma near_hundredth:
  "\<bar>(of_nat r :: rat) - 100 * \<bar>q\<bar>\<bar> \<le> 1 / 2 \<Longrightarrow> \<bar>(of_nat r :: rat) / 100 - \<bar>q\<bar>\<bar> \<le> 1 / 200"
proof -
  assume a: "\<bar>(of_nat r :: rat) - 100 * \<bar>q\<bar>\<bar> \<le> 1 / 2"
  have "(of_nat r :: rat) / 100 - \<bar>q\<bar> = (of_nat r - 100 * \<bar>q\<bar>) / 100" by simp
  then have "\<bar>(of_nat r :: rat) / 100 - \<bar>q\<bar>\<bar> = \<bar>of_nat r - 100 * \<bar>q\<bar>\<bar> / 100"
    by (simp only: abs_divide) 
  with a show ?thesis by simp
qed

lemma takeWhile_digits_point:
  "list_all is_digit ip \<Longrightarrow> takeWhile is_digit (ip @ CHR ''.'' # fp) = ip"
proof -
  assume "list_all is_digit ip"
  then have "\<And>c. c \<in> set ip \<Longrightarrow> is_digit c" by (simp add: list_all_iff)
  then have "takeWhile is_digit (ip @ CHR ''.'' # fp) = ip @ takeWhile is_digit (CHR ''.'' # fp)"
    by (rule takeWhile_append2)
  then show ?thesis by (simp only: takeWhile.simps not_digit_point if_False append_Nil2)
qed

lemma dropWhile_digits_point:
  "list_all is_digit ip \<Longrightarrow> dropWhile is_digit (ip @ CHR ''.'' # fp) = CHR ''.'' # fp"
proof -
  assume "list_all is_digit ip"
  then have "\<And>c. c \<in> set ip \<Longrightarrow> is_digit c" by (simp add: list_all_iff)
  then have "dropWhile is_digit (ip @ CHR ''.'' # fp) = dropWhile is_digit (CHR ''.'' # fp)"
    by (rule dropWhile_append2)
  then show ?thesis by (simp only: dropWhile.simps not_digit_point if_False)
qed

lemma fmt_2f_two_places: "two_places (fmt_2f (Finite s m e)) s (float_value s m e)"
proof -
  obtain a b where ab: "scale2 (m * 100) 1 (- e) = (a, b)" by (cases "scale2 (m * 100) 1 (- e)")
  define r where "r = round_half_even a b"
  define ip where "ip = str_nat (r div 100)"
  define fp where "fp = [digit_char (r mod 100 div 10), digit_char (r mod 10)]"
  define body where "body = ip @ CHR ''.'' # fp"
  have fmt: "fmt_2f (Finite s m e) = (if s then ''-'' else []) @ body"
    unfolding r_def ip_def fp_def body_def
    by (simp only: fmt_2f.simps ab split_conv Let_def append.simps)
  have ipd: "list_all is_digit ip" "ip \<noteq> []"
    by (simp_all add: ip_def str_nat_digits str_nat_not_Nil)
  have tw: "takeWhile is_digit body = ip"
    unfolding body_def using ipd(1) by (rule takeWhile_digits_point)
  have dw: "dropWhile is_digit body = CHR ''.'' # fp"
    unfolding body_def using ipd(1) by (rule dropWhile_digits_point)
  have fpd: "list_all is_digit fp" "length fp = 2"
    by (simp_all add: fp_def is_digit_digit_char)
  have "nat_of_digits (ip @ fp) = 100 * (r div 100) + 10 * (r mod 100 div 10) + r mod 10"
    unfolding fp_def ip_def
    by (simp only: nat_of_digits_two nat_of_digits_str_nat) (simp add: digit_val_digit_char)
  then have val: "nat_of_digits (ip @ fp) = r"
    by (simp only: digits_value)
  from scale2_hundred [OF ab, of s] have b: "0 < b"
    and q: "(of_nat a :: rat) / of_nat b = 100 * \<bar>float_value s m e\<bar>" by simp_all
  from round_half_even_rat [OF b, of a]
  have "\<bar>(of_nat r :: rat) - 100 * \<bar>float_value s m e\<bar>\<bar> \<le> 1 / 2"
    by (simp only: r_def q)
  then have near: "\<bar>(of_nat r :: rat) / 100 - \<bar>float_value s m e\<bar>\<bar> \<le> 1 / 200"
    by (rule near_hundredth)
  show ?thesis
  proof (cases s)
    case True
    have eq: "fmt_2f (Finite s m e) = CHR ''-'' # body"
      unfolding fmt using True by simp
    show ?thesis
      unfolding two_places_def eq using True near
      by (simp add: tw dw fpd val ipd Let_def)
  next
    case False
    have eq: "fmt_2f (Finite s m e) = body"
      unfolding fmt using False by simp
    show ?thesis
      unfolding two_places_def eq using False near
      by (simp add: tw dw fpd val ipd Let_def)
  qed
qed

lemma int_of_float_value:
  assumes "is_integer (Finite s m e)"
  shows "\<exists>z. int_of_float (Finite s m e) = Inr z \<and> of_int z = float_value s m e"
proof (cases "0 \<le> e")
  case True
  then show ?thesis by (simp add: float_value_def Let_def)
next
  case False
  with assms obtain c where c: "m = 2 ^ nat (- e) * c" by (auto simp add: dvd_def)
  have "int m div 2 ^ nat (- e) = int c"
    by (simp add: c)
  moreover have "(of_nat m :: rat) / 2 ^ nat (- e) = of_nat c"
    by (simp add: c)
  ultimately show ?thesis
    using False by (simp add: float_value_def Let_def)
qed

lemma value_whole_is_integer:
  assumes "float_value s m e \<in> \<int>"
  shows "is_integer (Finite s m e)"
proof (cases "0 \<le> e")
  case True
  then show ?thesis by simp
next
  case False
  let ?k = "nat (- e)"
  from assms False have "(if s then - 1 else 1) * ((of_nat m :: rat) / 2 ^ ?k) \<in> \<int>"
    by (simp add: float_value_def)
  then have "(of_nat m :: rat) / 2 ^ ?k \<in> \<int>"
    by (cases s) simp_all
  then obtain z where z: "(of_nat m :: rat) / 2 ^ ?k = of_int z" by (auto elim: Ints_cases)
  then have "(of_int (int m) :: rat) = of_int (z * 2 ^ ?k)"
    by (simp add: field_simps)
  then have "int m = z * 2 ^ ?k" by (simp only: of_int_eq_iff)
  then have "(2::int) ^ ?k dvd int m" by simp
  then have "2 ^ ?k dvd m"
    by (metis int_dvd_int_iff of_nat_numeral of_nat_power)
  with False show ?thesis by simp
qed

lemma is_integer_iff: "is_integer (Finite s m e) \<longleftrightarrow> float_value s m e \<in> \<int>"
  using int_of_float_value [of s m e] value_whole_is_integer [of s m e]
  by (metis Ints_of_int)

lemma normalize_value_number:
  "v \<noteq> PyNone \<Longrightarrow>
   normalize_value v ''number'' =
     (case py_float v of
        Inl err \<Rightarrow> py_str v
      | Inr f \<Rightarrow>
          if is_integer f
          then (case int_of_float f of Inl err \<Rightarrow> py_str v | Inr i \<Rightarrow> str_int i)
          else fmt_2f f)"
  by (simp add: normalize_value_def)

lemmas evaluate_number =
  normalize_value_def float_of_string_def strip_def is_space_def is_digit_def lower_def
  split_sign_def parse_decimal_def parse_exponent_def nat_of_digits_def digit_val_def
  to_double_def bitlen.simps scale2_def round_half_even_def str_int_def str_nat.simps
  digit_char_def Let_def

lemma number_example_whole: "normalize_value (PyStr ''1500.0'') ''number'' = ''1500''"
  by (simp add: evaluate_number)

lemma number_example_fraction: "normalize_value (PyStr ''1500.5'') ''number'' = ''1500.50''"
  by (simp add: evaluate_number)

lemma number_example_text: "normalize_value (PyStr ''abc'') ''number'' = ''abc''"
  by (simp add: evaluate_number)

lemmas number_examples = number_example_whole number_example_fraction number_example_text

section \<open>Normalising a number\<close>

text \<open>
  C3, as the code has it.  \<open>None\<close> is stored as the empty string.  For every other raw
  value of a number question: when \<open>float\<close> raises, the string form of the raw value is
  stored, a string itself unchanged; when the float is finite and a whole number, the
  canonical decimal form of that number is stored; when it is finite with a fractional
  part, a decimal with two places nearest to it is stored; an infinity is stored as
  \<open>inf\<close> or \<open>-inf\<close> and a NaN as \<open>nan\<close>.  Every exception of the conversion is a branch
  that returns a string.  The three examples of the specification come out as it says.
\<close>

theorem normalize_number:
  "normalize_value PyNone ''number'' = []
   \<and> (v \<noteq> PyNone \<longrightarrow>
        (case py_float v of
           Inl err \<Rightarrow>
             normalize_value v ''number'' = py_str v
             \<and> (\<forall>x. v = PyStr x \<longrightarrow> normalize_value v ''number'' = x)
         | Inr (Finite s m e) \<Rightarrow>
             if float_value s m e \<in> \<int>
             then \<exists>z. of_int z = float_value s m e
                    \<and> normalize_value v ''number'' = str_int z
                    \<and> canonical_decimal (normalize_value v ''number'') z
             else two_places (normalize_value v ''number'') s (float_value s m e)
         | Inr (Infinite s) \<Rightarrow> normalize_value v ''number'' = (if s then ''-inf'' else ''inf'')
         | Inr NaN \<Rightarrow> normalize_value v ''number'' = ''nan''))
   \<and> normalize_value (PyStr ''1500.0'') ''number'' = ''1500''
   \<and> normalize_value (PyStr ''1500.5'') ''number'' = ''1500.50''
   \<and> normalize_value (PyStr ''abc'') ''number'' = ''abc''"
proof -
  have none: "normalize_value PyNone ''number'' = []"
    by (simp add: normalize_value_def)
  have rule: "case py_float v of
           Inl err \<Rightarrow>
             normalize_value v ''number'' = py_str v
             \<and> (\<forall>x. v = PyStr x \<longrightarrow> normalize_value v ''number'' = x)
         | Inr (Finite s m e) \<Rightarrow>
             if float_value s m e \<in> \<int>
             then \<exists>z. of_int z = float_value s m e
                    \<and> normalize_value v ''number'' = str_int z
                    \<and> canonical_decimal (normalize_value v ''number'') z
             else two_places (normalize_value v ''number'') s (float_value s m e)
         | Inr (Infinite s) \<Rightarrow> normalize_value v ''number'' = (if s then ''-inf'' else ''inf'')
         | Inr NaN \<Rightarrow> normalize_value v ''number'' = ''nan''"
    if v: "v \<noteq> PyNone"
  proof (cases "py_float v")
    case (Inl err)
    with normalize_value_number [OF v] have a: "normalize_value v ''number'' = py_str v" by simp
    then have "\<forall>x. v = PyStr x \<longrightarrow> normalize_value v ''number'' = x" by auto
    with a show ?thesis unfolding Inl by (simp only: sum.case)
  next
    case (Inr f)
    show ?thesis
    proof (cases f)
      case (Finite s m e)
      show ?thesis
      proof (cases "float_value s m e \<in> \<int>")
        case True
        then have "is_integer (Finite s m e)" by (simp only: is_integer_iff)
        from int_of_float_value [OF this] obtain z
          where z: "int_of_float (Finite s m e) = Inr z" "of_int z = float_value s m e" by blast
        have "normalize_value v ''number'' = str_int z"
          using Inr Finite \<open>is_integer (Finite s m e)\<close> z(1)
          by (simp only: normalize_value_number [OF v] sum.case if_True)
        with z(2) canonical_str_int [of z] True Inr Finite show ?thesis by auto
      next
        case False
        then have ni: "\<not> is_integer (Finite s m e)" by (simp only: is_integer_iff not_False_eq_True)
        have "normalize_value v ''number'' = fmt_2f (Finite s m e)"
          using Inr Finite ni
          by (simp only: normalize_value_number [OF v] sum.case if_False)
        with fmt_2f_two_places [of s m e] False Inr Finite show ?thesis by simp
      qed
    next
      case (Infinite s)
      with Inr show ?thesis by (simp add: normalize_value_number [OF v])
    next
      case NaN
      with Inr show ?thesis by (simp add: normalize_value_number [OF v])
    qed
  qed
  from none rule number_examples show ?thesis by blast
qed

theorem normalize_number_witness:
  "PyFloat (Finite False 3001 (- 1)) \<noteq> PyNone
   \<and> float_value False 3001 (- 1) \<notin> \<int>
   \<and> normalize_value (PyFloat (Finite False 3001 (- 1))) ''number'' = ''1500.50''
   \<and> two_places ''1500.50'' False (float_value False 3001 (- 1))"
proof -
  have ni: "float_value False 3001 (- 1) \<notin> \<int>"
    using is_integer_iff [of False 3001 "- 1"] by simp
  have nz: "normalize_value (PyFloat (Finite False 3001 (- 1))) ''number'' = ''1500.50''"
    by (simp add: evaluate_number)
  from normalize_number [of "PyFloat (Finite False 3001 (- 1))"] ni nz
  show ?thesis by simp
qed

text \<open>
  C3, as stated, fails on \<open>None\<close>: converting it to a float raises, and what is stored is
  the empty string, not the string form of the raw value.
\<close>

theorem none_becomes_empty:
  "py_float PyNone = Inl TypeError
   \<and> normalize_value PyNone ''number'' = []
   \<and> py_str PyNone = ''None''"
  by (simp add: normalize_value_def)

section \<open>The interview state machine\<close>

text \<open>
  C1.  In every state of a session (the state \<open>start_interview\<close> returns, followed by
  any finite sequence of presses of Next and Back) the step lies between \<open>0\<close> and
  \<open>N - 1\<close>, where \<open>N\<close> is the number of questions.  Moreover, from any state whatever,
  Back never leaves a step below \<open>0\<close> and Next never leaves one above \<open>N - 1\<close>.
\<close>

theorem step_in_range:
  "0 \<le> step (session ev st0 evs)
   \<and> step (session ev st0 evs) \<le> int (length QUESTIONS) - 1
   \<and> 0 \<le> step (fst (on_back st t n r m))
   \<and> step (fst (on_next_or_finish ev st t n r m)) \<le> int (length QUESTIONS) - 1"
proof -
  have "0 \<le> step (session ev st0 evs)
      \<and> step (session ev st0 evs) \<le> int (length QUESTIONS) - 1"
  proof (induction evs rule: rev_induct)
    case Nil
    show ?case by (simp add: session_Nil default_state_def length_QUESTIONS)
  next
    case (snoc e evs)
    show ?case unfolding session_snoc by (rule step_fire)
  qed
  moreover have "0 \<le> step (fst (on_back st t n r m))"
    by (simp add: fst_on_back step_save_answer_and_move)
  moreover have "step (fst (on_next_or_finish ev st t n r m)) \<le> int (length QUESTIONS) - 1"
    by (simp add: fst_on_next_or_finish step_save_answer_and_move length_QUESTIONS)
  ultimately show ?thesis by simp
qed

text \<open>
  C4.  In every state of a session the keys of the answers are exactly the keys of the
  questions: no press of Next or Back adds or removes a key.
\<close>

theorem answer_keys_fixed:
  "dom (answers (session ev st0 evs)) = set (map key QUESTIONS)"
proof (induction evs rule: rev_induct)
  case Nil
  show ?case by (simp add: session_Nil dom_default_state del: set_map)
next
  case (snoc e evs)
  then show ?case unfolding session_snoc by (rule dom_fire)
qed

text \<open>
  C10.  A press of Next or of Back, from any state, returns the answers it was given
  with one key updated: the key of the question at the step the call began with, which
  gets the normalised value of that question's widget.  All other keys keep their values.
\<close>

theorem one_answer_changed:
  "answers (fst (on_next_or_finish ev st t n r m)) =
     (answers st)(key (current_question (step st)) \<mapsto>
        normalize_value (pick_raw_val (current_question (step st)) t n r m)
          (qtype (current_question (step st))))
   \<and> answers (fst (on_back st t n r m)) =
     (answers st)(key (current_question (step st)) \<mapsto>
        normalize_value (pick_raw_val (current_question (step st)) t n r m)
          (qtype (current_question (step st))))"
  by (simp add: fst_on_next_or_finish fst_on_back answers_save_answer_and_move)

text \<open>
  C9.  Back at step \<open>0\<close>, with any raw value in the text box, leaves the step at \<open>0\<close> and
  stores the normalised raw value under the key of question \<open>0\<close>, \<open>full_name\<close>, a text
  question.
\<close>

theorem retreat_at_first:
  assumes "step st = 0"
  shows "step (fst (on_back st t n r m)) = 0
       \<and> answers (fst (on_back st t n r m)) =
           (answers st)(''full_name'' \<mapsto> normalize_value t ''text'')"
  using assms
  by (simp add: fst_on_back step_save_answer_and_move answers_save_answer_and_move
        first_question pick_raw_val_def length_QUESTIONS)

theorem retreat_at_first_witness:
  "step default_state = 0
   \<and> step (fst (on_back default_state (PyStr ''Jane'') PyNone PyNone PyNone)) = 0
   \<and> answers (fst (on_back default_state (PyStr ''Jane'') PyNone PyNone PyNone)) ''full_name''
       = Some ''Jane''"
  using retreat_at_first [of default_state "PyStr ''Jane''" PyNone PyNone PyNone]
  by (simp add: default_state_def normalize_value_def)

text \<open>
  C7.  Next at the last step \<open>N - 1\<close> returns the state with the step unchanged and the
  normalised value of the text box stored under the key of the last question,
  \<open>signature_name\<close>; the document offered for download and the status line are those of
  \<open>fill_pdf\<close> applied to these updated answers, so the compositor sees the value entered
  last.
\<close>

theorem finish_saves_before_render:
  assumes "step st = int (length QUESTIONS) - 1"
  shows "\<exists>u b nx. on_next_or_finish ev st t n r m =
           (st\<lparr>answers := (answers st)(''signature_name'' \<mapsto> normalize_value t ''text'')\<rparr>,
            Inr (u, b, nx,
                 (case fill_pdf ev ((answers st)(''signature_name'' \<mapsto> normalize_value t ''text'')) of
                    Inr output \<Rightarrow> FileUpdate (Some output) True
                  | Inl e \<Rightarrow> FileUpdate None False),
                 (case fill_pdf ev ((answers st)(''signature_name'' \<mapsto> normalize_value t ''text'')) of
                    Inr output \<Rightarrow>
                      ''PDF generated successfully. Review and sign where required before filing.''
                  | Inl e \<Rightarrow> ''Could not generate PDF: '' @ exn_message e)))"
  using assms by (rule on_next_or_finish_at_last)

theorem finish_saves_before_render_witness:
  "step (default_state\<lparr>step := 16\<rparr>) = int (length QUESTIONS) - 1
   \<and> step (fst (on_next_or_finish \<lparr>template = None, draw_fails = (\<lambda>s. None)\<rparr>
               (default_state\<lparr>step := 16\<rparr>) (PyStr ''Jane'') PyNone PyNone PyNone)) = 16
   \<and> answers (fst (on_next_or_finish \<lparr>template = None, draw_fails = (\<lambda>s. None)\<rparr>
               (default_state\<lparr>step := 16\<rparr>) (PyStr ''Jane'') PyNone PyNone PyNone))
         ''signature_name'' = Some ''Jane''"
  using finish_saves_before_render
    [of "default_state\<lparr>step := 16\<rparr>" "\<lparr>template = None, draw_fails = (\<lambda>s. None)\<rparr>"
        "PyStr ''Jane''" PyNone PyNone PyNone]
  by (auto simp add: length_QUESTIONS normalize_value_def)

section \<open>Properties of the overlay compositor\<close>





text \<open>
  C8, as the code has it.  When the overlay is generated for \<open>n\<close> pages, page \<open>i\<close> of it
  is what the rule \<open>expected_page\<close> says.  So for every field position and every page
  \<open>i < n\<close>: what the page shows at the field's point is the answer, once, when \<open>i\<close> is
  the field's page and the answer is not empty, and nothing otherwise.  A field whose
  page index is not below \<open>n\<close> is drawn nowhere.
\<close>

theorem overlay_shows_answers:
  assumes "create_overlay_pdf ev ans n = Inr pages"
  shows "pages = map (expected_page ans PDF_FIELD_POSITIONS) [0..<n]
       \<and> (\<forall>(k, p, x, y) \<in> set PDF_FIELD_POSITIONS. \<forall>i < n.
             drawn_at x y (pages ! i) =
               (if i = p \<and> get_answer ans k \<noteq> [] then [get_answer ans k] else []))"
proof -
  from assms have pages: "pages = map (expected_page ans PDF_FIELD_POSITIONS) [0..<n]"
    unfolding create_overlay_pdf_def by (auto dest: overlay_pages_Inr)
  then show ?thesis
    by (auto simp add: drawn_at_expected_page [OF distinct_points])
qed

theorem overlay_shows_answers_witness:
  "create_overlay_pdf quiet_env named_answers 1 = Inr [[DrawString ''Helvetica'' 10 120 700 ''Jane Doe'']]
   \<and> drawn_at 120 700 ([[DrawString ''Helvetica'' 10 120 700 ''Jane Doe'']] ! 0) = [''Jane Doe'']
   \<and> drawn_at 120 680 ([[DrawString ''Helvetica'' 10 120 700 ''Jane Doe'']] ! 0) = []"
proof -
  have c: "create_overlay_pdf quiet_env named_answers 1 = Inr [[DrawString ''Helvetica'' 10 120 700 ''Jane Doe'']]"
    by (simp add: create_overlay_pdf_def quiet_env_def named_answers_def default_state_def
          QUESTIONS_def PDF_FIELD_POSITIONS_def get_answer_def)
  from overlay_shows_answers [OF c] have b:
    "\<forall>(k, p, x, y) \<in> set PDF_FIELD_POSITIONS. \<forall>i < 1.
       drawn_at x y ([[DrawString ''Helvetica'' 10 120 700 ''Jane Doe'']] ! i) =
         (if i = p \<and> get_answer named_answers k \<noteq> [] then [get_answer named_answers k] else [])"
    by (rule conjunct2)
  have m1: "(''full_name'', 0, 120, 700) \<in> set PDF_FIELD_POSITIONS"
    and m2: "(''address'', 0, 120, 680) \<in> set PDF_FIELD_POSITIONS"
    by (simp_all add: PDF_FIELD_POSITIONS_def)
  from bspec [OF b m1] bspec [OF b m2]
  have "drawn_at 120 700 ([[DrawString ''Helvetica'' 10 120 700 ''Jane Doe'']] ! 0) = [''Jane Doe'']"
    and "drawn_at 120 680 ([[DrawString ''Helvetica'' 10 120 700 ''Jane Doe'']] ! 0) = []"
    by (simp_all add: named_answers_def default_state_def QUESTIONS_def get_answer_def)
  with c show ?thesis by simp
qed

text \<open>
  C8, as the claim states it, fails for a template without pages: the answer to
  \<open>full_name\<close> is not empty and nothing is drawn.
\<close>

theorem overlay_without_pages:
  "create_overlay_pdf quiet_env named_answers 0 = Inr []
   \<and> (''full_name'', 0, 120, 700) \<in> set PDF_FIELD_POSITIONS
   \<and> get_answer named_answers ''full_name'' = ''Jane Doe''"
  by (simp add: create_overlay_pdf_def PDF_FIELD_POSITIONS_def named_answers_def get_answer_def)


text \<open>
  C2, as the code has it.  Nothing in the overlay loops catches an exception of the
  canvas.  When drawing the answer of some field raises, for a field on a page of the
  template, generating the overlay raises a drawing error and so does \<open>fill_pdf\<close>: no
  document is returned.  Next at the last step then reports the error in the status
  line, offers no download, and keeps the state with the answer saved.
\<close>

theorem draw_failure_aborts_render:
  assumes "(k, p, x, y) \<in> set PDF_FIELD_POSITIONS"
    and "get_answer ans k \<noteq> []"
    and "draw_fails ev (get_answer ans k) = Some msg"
    and "template ev = Some (PdfFile tpl)"
    and "p < length tpl"
  shows "(\<exists>msg'. create_overlay_pdf ev ans (length tpl) = Inl (LibraryError msg')
            \<and> fill_pdf ev ans = Inl (LibraryError msg'))
       \<and> (\<forall>st t n r m.
             step st = int (length QUESTIONS) - 1
             \<and> (answers st)(''signature_name'' \<mapsto> normalize_value t ''text'') = ans
             \<longrightarrow> (\<exists>u b nx msg'. on_next_or_finish ev st t n r m =
                    (st\<lparr>answers := ans\<rparr>,
                     Inr (u, b, nx, FileUpdate None False, ''Could not generate PDF: '' @ msg'))))"
proof -
  from draw_fields_fails [OF assms(1-3)]
  obtain e where "draw_fields ev ans p PDF_FIELD_POSITIONS [] = Inl e" by blast
  moreover from assms(5) have "p \<in> set [0..<length tpl]" by simp
  ultimately obtain e' where "overlay_pages ev ans PDF_FIELD_POSITIONS [0..<length tpl] [] = Inl e'"
    using overlay_pages_fails by blast
  then have c: "create_overlay_pdf ev ans (length tpl) = Inl e'"
    by (simp add: create_overlay_pdf_def)
  with create_overlay_pdf_Inl obtain msg' where e': "e' = LibraryError msg'" by blast
  from c assms(4) have f: "fill_pdf ev ans = Inl (LibraryError msg')"
    by (simp add: fill_pdf_def PdfReader_def e')
  have "\<exists>u b nx msg'. on_next_or_finish ev st t n r m =
          (st\<lparr>answers := ans\<rparr>,
           Inr (u, b, nx, FileUpdate None False, ''Could not generate PDF: '' @ msg'))"
    if "step st = int (length QUESTIONS) - 1"
      and "(answers st)(''signature_name'' \<mapsto> normalize_value t ''text'') = ans"
    for st t n r m
    using on_next_or_finish_at_last [OF that(1), of ev t n r m] f that(2) by auto
  with c e' f show ?thesis by blast
qed

theorem draw_failure_aborts_render_witness:
  "(''full_name'', 0, 120, 700) \<in> set PDF_FIELD_POSITIONS
   \<and> get_answer bad_answers ''full_name'' = ''bad''
   \<and> draw_fails faulty_env ''bad'' = Some ''boom''
   \<and> template faulty_env = Some (PdfFile [[Content ''form'']])
   \<and> (\<exists>msg'. fill_pdf faulty_env bad_answers = Inl (LibraryError msg'))"
proof -
  have 1: "(''full_name'', 0, 120, 700) \<in> set PDF_FIELD_POSITIONS"
    by (simp add: PDF_FIELD_POSITIONS_def)
  have 2: "get_answer bad_answers ''full_name'' = ''bad''"
    by (simp add: bad_answers_def get_answer_def)
  have 3: "draw_fails faulty_env ''bad'' = Some ''boom''"
    by (simp add: faulty_env_def)
  have 4: "template faulty_env = Some (PdfFile [[Content ''form'']])"
    by (simp add: faulty_env_def sample_template_def)
  have "get_answer bad_answers ''full_name'' \<noteq> []"
    and "draw_fails faulty_env (get_answer bad_answers ''full_name'') = Some ''boom''"
    and "0 < length [[Content ''form'']]"
    using 2 3 by simp_all
  from draw_failure_aborts_render [OF 1 this(1) this(2) 4 this(3)] 1 2 3 4
  show ?thesis by blast
qed

text \<open>
  C2, as stated (the field is skipped and a document is still produced), fails: with a
  canvas that raises on one answer, \<open>fill_pdf\<close> returns the error and no document, though
  the answer of another field could have been drawn.
\<close>

theorem one_bad_field_no_document:
  "fill_pdf faulty_env bad_answers = Inl (LibraryError ''boom'')
   \<and> get_answer bad_answers ''address'' = ''12 Elm St''
   \<and> draw_fails faulty_env ''12 Elm St'' = None"
  by (simp add: fill_pdf_def PdfReader_def create_overlay_pdf_def faulty_env_def sample_template_def
        bad_answers_def get_answer_def PDF_FIELD_POSITIONS_def)

end
